theory Spec2Isabelle
  imports Main
begin

section \<open>Python values held by the database manager\<close>

text \<open>
  The manager of \<^verbatim>\<open>src/utils/db_manager.py\<close> stores JSON-compatible Python values.
  Python's \<^verbatim>\<open>None\<close> is \<open>JNull\<close>; a \<^verbatim>\<open>dict\<close> keeps its insertion order, so it is an
  association list with string keys. Floating-point numbers are not modelled.
\<close>

datatype json =
    JNull
  | JBool bool
  | JInt int
  | JStr string
  | JList "json list"
  | JDict "(string \<times> json) list"

datatype error = AttributeError | TypeError | KeyError | ValueError

text \<open>Truth value of an object, as tested by \<^verbatim>\<open>x or y\<close> and \<^verbatim>\<open>if not x\<close>.\<close>

fun truthy :: "json \<Rightarrow> bool" where
  "truthy JNull = False"
| "truthy (JBool b) = b"
| "truthy (JInt n) = (n \<noteq> 0)"
| "truthy (JStr s) = (s \<noteq> [])"
| "truthy (JList xs) = (xs \<noteq> [])"
| "truthy (JDict kvs) = (kvs \<noteq> [])"

text \<open>\<^verbatim>\<open>x or d\<close>\<close>

definition py_or :: "json \<Rightarrow> json \<Rightarrow> json" where
  "py_or x d = (if truthy x then x else d)"

subsection \<open>Dictionaries\<close>

fun dict_set :: "string \<Rightarrow> json \<Rightarrow> (string \<times> json) list \<Rightarrow> (string \<times> json) list" where
  "dict_set k v [] = [(k, v)]"
| "dict_set k v ((k', v') # kvs) =
     (if k' = k then (k, v) # kvs else (k', v') # dict_set k v kvs)"

text \<open>\<^verbatim>\<open>d.get(k, default)\<close>: only a dict has the method.\<close>

fun py_get :: "json \<Rightarrow> string \<Rightarrow> json \<Rightarrow> error + json" where
  "py_get (JDict kvs) k d = Inr (case map_of kvs k of Some v \<Rightarrow> v | None \<Rightarrow> d)"
| "py_get _ k d = Inl AttributeError"


text \<open>\<^verbatim>\<open>d[k] = v\<close> with a string subscript.\<close>

fun py_setitem :: "json \<Rightarrow> string \<Rightarrow> json \<Rightarrow> error + json" where
  "py_setitem (JDict kvs) k v = Inr (JDict (dict_set k v kvs))"
| "py_setitem _ k v = Inl TypeError"

text \<open>\<^verbatim>\<open>xs.append(x)\<close>: only a list has the method.\<close>

fun py_append :: "json \<Rightarrow> json \<Rightarrow> error + json" where
  "py_append (JList xs) x = Inr (JList (xs @ [x]))"
| "py_append _ x = Inl AttributeError"

text \<open>Substring test, the meaning of \<^verbatim>\<open>s in t\<close> on two strings.\<close>

fun starts_with :: "string \<Rightarrow> string \<Rightarrow> bool" where
  "starts_with [] t = True"
| "starts_with (c # s) [] = False"
| "starts_with (c # s) (d # t) = (c = d \<and> starts_with s t)"

fun substring :: "string \<Rightarrow> string \<Rightarrow> bool" where
  "substring s [] = (s = [])"
| "substring s (d # t) = (starts_with s (d # t) \<or> substring s t)"

text \<open>\<^verbatim>\<open>k in c\<close> for a string \<open>k\<close>: key of a dict, element of a list, substring of a string.\<close>

fun py_in :: "string \<Rightarrow> json \<Rightarrow> error + bool" where
  "py_in k (JDict kvs) = Inr (k \<in> set (map fst kvs))"
| "py_in k (JList xs) = Inr (JStr k \<in> set xs)"
| "py_in k (JStr s) = Inr (substring k s)"
| "py_in k _ = Inl TypeError"


subsection \<open>Decimal numerals and JSON text\<close>

definition digit_char :: "nat \<Rightarrow> char" where
  "digit_char d = ''0123456789'' ! (d mod 10)"

function str_nat :: "nat \<Rightarrow> string" where
  "str_nat n = (if n < 10 then [digit_char n] else str_nat (n div 10) @ [digit_char (n mod 10)])"
  by pat_completeness auto
termination
  by (relation "measure id") auto

declare str_nat.simps [simp del]

text \<open>\<^verbatim>\<open>str(n)\<close> for an integer.\<close>

definition str_int :: "int \<Rightarrow> string" where
  "str_int i = (if i < 0 then CHR ''-'' # str_nat (nat (- i)) else str_nat (nat i))"

definition hex_char :: "nat \<Rightarrow> char" where
  "hex_char d = ''0123456789abcdef'' ! (d mod 16)"

text \<open>
  One character of a string literal as \<^verbatim>\<open>json.dumps\<close> writes it with its default
  \<^verbatim>\<open>ensure_ascii=True\<close>: printable ASCII is kept, the quote and the backslash are
  escaped, and everything else becomes a short escape or \<^verbatim>\<open>\u00XX\<close>.
\<close>

definition escape_char :: "char \<Rightarrow> string" where
  "escape_char c =
     (let n = (of_char c :: nat) in
      if n = 34 then [CHR 0x5C, CHR 0x22]
      else if n = 92 then [CHR 0x5C, CHR 0x5C]
      else if n = 10 then [CHR 0x5C, CHR ''n'']
      else if n = 13 then [CHR 0x5C, CHR ''r'']
      else if n = 9 then [CHR 0x5C, CHR ''t'']
      else if n = 12 then [CHR 0x5C, CHR ''f'']
      else if n = 8 then [CHR 0x5C, CHR ''b'']
      else if 32 \<le> n \<and> n \<le> 126 then [c]
      else [CHR 0x5C, CHR ''u'', CHR ''0'', CHR ''0'', hex_char (n div 16), hex_char (n mod 16)])"

definition dumps_str :: "string \<Rightarrow> string" where
  "dumps_str s = [CHR 0x22] @ concat (map escape_char s) @ [CHR 0x22]"

text \<open>\<^verbatim>\<open>', '.join(parts)\<close>\<close>

fun join_comma :: "string list \<Rightarrow> string" where
  "join_comma [] = []"
| "join_comma [p] = p"
| "join_comma (p # q # ps) = p @ '', '' @ join_comma (q # ps)"

text \<open>\<^verbatim>\<open>json.dumps(v)\<close> with the default separators.\<close>

fun json_dumps :: "json \<Rightarrow> string" where
  "json_dumps JNull = ''null''"
| "json_dumps (JBool b) = (if b then ''true'' else ''false'')"
| "json_dumps (JInt n) = str_int n"
| "json_dumps (JStr s) = dumps_str s"
| "json_dumps (JList xs) = ''['' @ join_comma (map json_dumps xs) @ '']''"
| "json_dumps (JDict kvs) =
     ''{'' @ join_comma (map (\<lambda>kv. dumps_str (fst kv) @ '': '' @ json_dumps (snd kv)) kvs) @ ''}''"


section \<open>Library functions and the clock\<close>

text \<open>
  \<^verbatim>\<open>json.loads\<close>, the \<^verbatim>\<open>repr\<close> of a container inside an f-string and the ISO
  conversions of \<^verbatim>\<open>datetime\<close> belong to Python's library, not to the repository: they
  are parameters. \<open>loads t = None\<close> is \<^verbatim>\<open>JSONDecodeError\<close>, \<open>fromisoformat s = None\<close>
  is \<^verbatim>\<open>ValueError\<close> (or the \<^verbatim>\<open>TypeError\<close> of comparing an instant that carries an
  offset with the naive \<^verbatim>\<open>utcnow()\<close>). Instants are integers (microseconds); every
  function that reads the clock takes the reading \<open>now\<close>, and a call that reads the
  clock several times is taken to get the same reading each time.
\<close>

record pylib =
  loads :: "string \<Rightarrow> json option"
  repr :: "json \<Rightarrow> string"
  fromisoformat :: "string \<Rightarrow> int option"
  isoformat :: "int \<Rightarrow> string"

text \<open>\<^verbatim>\<open>f"{v}"\<close>\<close>

fun py_str :: "pylib \<Rightarrow> json \<Rightarrow> string" where
  "py_str L (JStr s) = s"
| "py_str L (JInt n) = str_int n"
| "py_str L (JBool b) = (if b then ''True'' else ''False'')"
| "py_str L JNull = ''None''"
| "py_str L v = repr L v"

text \<open>A library given by finite tables, for running the model on concrete inputs.\<close>

definition table_lib :: "(string \<times> json) list \<Rightarrow> (string \<times> int) list \<Rightarrow> pylib" where
  "table_lib texts instants =
     \<lparr>loads = map_of texts, repr = (\<lambda>v. []), fromisoformat = map_of instants, isoformat = str_int\<rparr>"

section \<open>The backing store\<close>

text \<open>
  The remote key-value service answers \<^verbatim>\<open>GET base/key\<close> with 200 and the stored text or
  with 404, and \<^verbatim>\<open>POST key=value\<close> with 200 after storing the text. It undoes the
  percent-encoding of \<^verbatim>\<open>urllib.parse.quote\<close>, so the store is keyed by the plain key.
  A request may also fail: \<open>faults\<close> schedules the fate of the coming requests, one entry
  per request (\<open>None\<close>, or an exhausted schedule, means the request is served).
  \<open>posts\<close> is the log of the writes the store has accepted.
\<close>

datatype fault = Refused | Dropped

datatype response = Response nat string

record remote =
  store :: "string \<rightharpoonup> string"
  faults :: "fault option list"
  posts :: "(string \<times> string) list"

definition next_fault :: "remote \<Rightarrow> fault option \<times> remote" where
  "next_fault r = (case faults r of [] \<Rightarrow> (None, r) | f # fs \<Rightarrow> (f, r\<lparr>faults := fs\<rparr>))"

text \<open>\<open>Inl ()\<close> is an exception raised by the HTTP session.\<close>

definition http_get :: "string \<Rightarrow> remote \<Rightarrow> (unit + response) \<times> remote" where
  "http_get key r =
     (case next_fault r of
        (Some Dropped, r') \<Rightarrow> (Inl (), r')
      | (Some Refused, r') \<Rightarrow> (Inr (Response 500 []), r')
      | (None, r') \<Rightarrow>
          (case store r' key of
             None \<Rightarrow> (Inr (Response 404 []), r')
           | Some text \<Rightarrow> (Inr (Response 200 text), r')))"

definition http_post :: "string \<Rightarrow> string \<Rightarrow> remote \<Rightarrow> (unit + nat) \<times> remote" where
  "http_post key text r =
     (case next_fault r of
        (Some Dropped, r') \<Rightarrow> (Inl (), r')
      | (Some Refused, r') \<Rightarrow> (Inr 500, r')
      | (None, r') \<Rightarrow>
          (Inr 200, r'\<lparr>store := (store r')(key \<mapsto> text), posts := posts r' @ [(key, text)]\<rparr>))"

section \<open>DatabaseManager\<close>

text \<open>
  \<open>cache\<close> is \<^verbatim>\<open>self._cache\<close>. \<open>lock_heap\<close> holds every \<^verbatim>\<open>asyncio.Lock\<close> object
  created so far (its index is the object's identity, its value whether it is held) and
  \<open>operation_locks\<close> is \<^verbatim>\<open>self._operation_locks\<close>. \<^verbatim>\<open>self._locks\<close> is never read or
  written after the constructor and has no field. The backing store is carried along
  in the same state. Calls run one after the other: the HTTP session that
  \<^verbatim>\<open>_ensure_session\<close> creates and the global \<^verbatim>\<open>_write_lock\<close>, which is free whenever
  a call starts, do not change what a call returns and are left out.
\<close>

record manager =
  cache :: "string \<rightharpoonup> json"
  operation_locks :: "string \<rightharpoonup> nat"
  lock_heap :: "bool list"
  remote :: remote

subsection \<open>Reading and writing a key\<close>

definition read_data :: "pylib \<Rightarrow> string \<Rightarrow> manager \<Rightarrow> json \<times> manager" where
  "read_data L key m =
     (case cache m key of
        Some v \<Rightarrow> (v, m)
      | None \<Rightarrow>
          (case http_get key (remote m) of
             (Inl _, r) \<Rightarrow> (JNull, m\<lparr>remote := r\<rparr>)
           | (Inr (Response status text), r) \<Rightarrow>
               if status = 404 then (JNull, m\<lparr>remote := r\<rparr>)
               else if status = 200 then
                 (let data = (case loads L text of Some v \<Rightarrow> v | None \<Rightarrow> JStr text)
                  in (data, m\<lparr>cache := (cache m)(key \<mapsto> data), remote := r\<rparr>))
               else (JNull, m\<lparr>remote := r\<rparr>)))"

text \<open>
  \<^verbatim>\<open>_write_data\<close> rebinds its parameter \<^verbatim>\<open>data\<close> to the JSON text before the request,
  and it is this rebound \<^verbatim>\<open>data\<close> that goes into the cache.
\<close>

definition payload :: "json \<Rightarrow> string" where
  "payload data = (case data of JStr s \<Rightarrow> s | _ \<Rightarrow> json_dumps data)"

definition write_data :: "string \<Rightarrow> json \<Rightarrow> manager \<Rightarrow> bool \<times> manager" where
  "write_data key data m =
     (let data' = payload data
      in case http_post key data' (remote m) of
           (Inl _, r) \<Rightarrow> (False, m\<lparr>remote := r\<rparr>)
         | (Inr status, r) \<Rightarrow>
             if status = 200 then (True, m\<lparr>cache := (cache m)(key \<mapsto> JStr data'), remote := r\<rparr>)
             else (False, m\<lparr>remote := r\<rparr>))"

text \<open>A manager right after construction, in front of a store with the given content.\<close>

definition new_manager :: "(string \<rightharpoonup> string) \<Rightarrow> fault option list \<Rightarrow> manager" where
  "new_manager content fs =
     \<lparr>cache = Map.empty, operation_locks = Map.empty, lock_heap = [],
      remote = \<lparr>store = content, faults = fs, posts = []\<rparr>\<rparr>"


subsection \<open>Guild documents\<close>

definition guild_key :: "pylib \<Rightarrow> json \<Rightarrow> string" where
  "guild_key L gid = ''guild:'' @ py_str L gid"

definition get_guild_data :: "pylib \<Rightarrow> json \<Rightarrow> manager \<Rightarrow> json \<times> manager" where
  "get_guild_data L gid m =
     (case read_data L (guild_key L gid) m of (v, m') \<Rightarrow> (py_or v (JDict []), m'))"

definition get_section :: "pylib \<Rightarrow> json \<Rightarrow> string \<Rightarrow> manager \<Rightarrow> (error + json) \<times> manager" where
  "get_section L gid section m =
     (case get_guild_data L gid m of (data, m') \<Rightarrow> (py_get data section (JDict []), m'))"

text \<open>
  A truthy value that \<^verbatim>\<open>_read_data\<close> returns is the cached object itself (a falsy one is
  replaced by a fresh \<^verbatim>\<open>{}\<close> or \<^verbatim>\<open>[]\<close>), so mutating it in place changes the cache
  entry before any write is attempted. \<open>mutate_cached key old new m\<close> is that effect for
  an object read as \<open>old\<close> under \<open>key\<close> and mutated into \<open>new\<close>.
\<close>

definition mutate_cached :: "string \<Rightarrow> json \<Rightarrow> json \<Rightarrow> manager \<Rightarrow> manager" where
  "mutate_cached key old new m = (if truthy old then m\<lparr>cache := (cache m)(key \<mapsto> new)\<rparr> else m)"

definition update_section ::
  "pylib \<Rightarrow> json \<Rightarrow> string \<Rightarrow> json \<Rightarrow> manager \<Rightarrow> (error + bool) \<times> manager" where
  "update_section L gid section data m =
     (let key = guild_key L gid in
      case get_guild_data L gid m of (guild_data, m1) \<Rightarrow>
        (case py_setitem guild_data section data of
           Inl e \<Rightarrow> (Inl e, m1)
         | Inr guild_data' \<Rightarrow>
             (case write_data key guild_data' (mutate_cached key guild_data guild_data' m1) of
                (ok, m2) \<Rightarrow> (Inr ok, m2))))"


definition update_user_xp ::
  "pylib \<Rightarrow> json \<Rightarrow> string \<Rightarrow> json \<Rightarrow> manager \<Rightarrow> (error + bool) \<times> manager" where
  "update_user_xp L gid user_id xp_data m =
     (case get_section L gid ''xp_users'' m of
        (Inl e, m1) \<Rightarrow> (Inl e, m1)
      | (Inr section, m1) \<Rightarrow>
          (case py_setitem (py_or section (JDict [])) user_id xp_data of
             Inl e \<Rightarrow> (Inl e, m1)
           | Inr data \<Rightarrow> update_section L gid ''xp_users'' data m1))"

text \<open>\<^verbatim>\<open>data[-1000:]\<close>\<close>

definition last_1000 :: "'a list \<Rightarrow> 'a list" where
  "last_1000 xs = drop (length xs - 1000) xs"

definition add_log ::
  "pylib \<Rightarrow> int \<Rightarrow> json \<Rightarrow> (string \<times> json) list \<Rightarrow> manager \<Rightarrow> (error + bool) \<times> manager" where
  "add_log L now gid log_data m =
     (case get_section L gid ''logs'' m of
        (Inl e, m1) \<Rightarrow> (Inl e, m1)
      | (Inr section, m1) \<Rightarrow>
          (case py_append (py_or section (JList []))
                  (JDict (dict_set ''timestamp'' (JStr (isoformat L now)) log_data)) of
             Inr (JList data) \<Rightarrow>
               update_section L gid ''logs''
                 (JList (if length data > 1000 then last_1000 data else data)) m1
           | Inr _ \<Rightarrow> (Inl AttributeError, m1)
           | Inl e \<Rightarrow> (Inl e, m1)))"

subsection \<open>Retention cleanup\<close>












subsection \<open>Guild index\<close>

text \<open>A member of \<^verbatim>\<open>bot.guilds\<close>: \<^verbatim>\<open>guild.id\<close> and \<^verbatim>\<open>guild.name\<close>.\<close>

datatype guild = Guild (guild_id: int) (guild_name: string)

text \<open>
  The document literal that \<^verbatim>\<open>sync_guilds\<close> and \<^verbatim>\<open>ensure_guild_exists\<close> both build
  for a guild without data.
\<close>

definition new_guild_document :: "pylib \<Rightarrow> int \<Rightarrow> int \<Rightarrow> string \<Rightarrow> json" where
  "new_guild_document L now gid name =
     JDict [(''id'', JStr (str_int gid)),
            (''name'', JStr name),
            (''joined_at'', JStr (isoformat L now)),
            (''whisper_config'', JDict [(''enabled'', JBool False)]),
            (''logs'', JDict [(''enabled'', JBool False)]),
            (''xp_settings'', JDict [(''enabled'', JBool True), (''rate'', JInt 15), (''cooldown'', JInt 60)]),
            (''roles'', JDict [(''color_roles'', JList []), (''level_roles'', JDict [])])]"





definition ensure_guild_exists :: "pylib \<Rightarrow> int \<Rightarrow> int \<Rightarrow> string \<Rightarrow> manager \<Rightarrow> bool \<times> manager" where
  "ensure_guild_exists L now gid name m =
     (case read_data L ''guilds'' m of (v, m1) \<Rightarrow>
      let guilds = py_or v (JList []) in
      case get_guild_data L (JInt gid) m1 of (guild_data, m2) \<Rightarrow>
      let m3 = (if \<not> truthy guild_data
                then snd (write_data (guild_key L (JInt gid)) (new_guild_document L now gid name) m2)
                else m2) in
      case py_in (str_int gid) guilds of
        Inl e \<Rightarrow> (False, m3)
      | Inr True \<Rightarrow> (True, m3)
      | Inr False \<Rightarrow>
          (case py_append guilds (JStr (str_int gid)) of
             Inl e \<Rightarrow> (False, m3)
           | Inr guilds' \<Rightarrow>
               (case write_data ''guilds'' guilds' (mutate_cached ''guilds'' v guilds' m3) of
                  (ok, m4) \<Rightarrow> (True, m4))))"

section \<open>DatabaseTransaction\<close>

text \<open>
  \<open>alloc_lock\<close> is \<^verbatim>\<open>asyncio.Lock()\<close>: a new, free lock object. \<open>acquire\<close> returns
  \<open>None\<close> when the caller has to wait because the lock is held.
\<close>

definition alloc_lock :: "manager \<Rightarrow> nat \<times> manager" where
  "alloc_lock m = (length (lock_heap m), m\<lparr>lock_heap := lock_heap m @ [False]\<rparr>)"

definition acquire :: "nat \<Rightarrow> manager \<Rightarrow> manager option" where
  "acquire l m =
     (if l < length (lock_heap m) \<and> \<not> lock_heap m ! l
      then Some (m\<lparr>lock_heap := (lock_heap m)[l := True]\<rparr>) else None)"

definition release :: "nat \<Rightarrow> manager \<Rightarrow> manager" where
  "release l m = m\<lparr>lock_heap := (lock_heap m)[l := False]\<rparr>"

definition held :: "nat \<Rightarrow> manager \<Rightarrow> bool" where
  "held l m = (l < length (lock_heap m) \<and> lock_heap m ! l)"

record transaction_obj =
  scope_guild :: int
  scope_namespace :: string
  lock :: nat
  changes :: "(string \<times> json) list"

text \<open>\<^verbatim>\<open>DatabaseManager.transaction\<close>, that is the constructor of \<^verbatim>\<open>DatabaseTransaction\<close>.\<close>

definition transaction :: "int \<Rightarrow> string \<Rightarrow> manager \<Rightarrow> transaction_obj \<times> manager" where
  "transaction gid ns m =
     (case alloc_lock m of
        (l, m') \<Rightarrow> (\<lparr>scope_guild = gid, scope_namespace = ns, lock = l, changes = []\<rparr>, m'))"

definition aenter :: "transaction_obj \<Rightarrow> manager \<Rightarrow> manager option" where
  "aenter tx m = acquire (lock tx) m"

text \<open>The commit loop over \<^verbatim>\<open>self.changes.items()\<close>; the result of a write is not looked at.\<close>

fun commit :: "(string \<times> json) list \<Rightarrow> manager \<Rightarrow> manager" where
  "commit [] m = m"
| "commit ((key, val) # rest) m = commit rest (snd (write_data key val m))"

text \<open>\<open>exc\<close> is the exception that left the body of the \<^verbatim>\<open>async with\<close>, if any.\<close>

definition aexit :: "error option \<Rightarrow> transaction_obj \<Rightarrow> manager \<Rightarrow> manager" where
  "aexit exc tx m = release (lock tx) (if exc = None then commit (changes tx) m else m)"

text \<open>
  The lock lookup of \<^verbatim>\<open>safe_operation\<close>: the lock registered under the operation name,
  created on first use.
\<close>

definition operation_lock :: "string \<Rightarrow> manager \<Rightarrow> nat \<times> manager" where
  "operation_lock operation_name m =
     (case operation_locks m operation_name of
        Some l \<Rightarrow> (l, m)
      | None \<Rightarrow>
          (case alloc_lock m of
             (l, m') \<Rightarrow> (l, m'\<lparr>operation_locks := (operation_locks m')(operation_name \<mapsto> l)\<rparr>)))"


section \<open>A concrete guild for running the model\<close>

definition example_doc :: json where
  "example_doc = JDict [(''name'', JStr ''g''), (''xp_users'', JDict [(''7'', JInt 1)])]"

definition example_lib :: pylib where
  "example_lib = table_lib [(json_dumps example_doc, example_doc)] []"

definition example_manager :: manager where
  "example_manager = new_manager [''guild:1'' \<mapsto> json_dumps example_doc] []"

section \<open>Sequential callers\<close>

text \<open>
  A caller that makes one \<^verbatim>\<open>add_log\<close> call per entry, one after the other, and keeps
  the outcome of each call (the returned flag or the exception it raised).
\<close>

fun add_logs ::
  "pylib \<Rightarrow> int \<Rightarrow> json \<Rightarrow> (string \<times> json) list list \<Rightarrow> manager \<Rightarrow>
   (error + bool) list \<times> manager" where
  "add_logs L now gid [] m = ([], m)"
| "add_logs L now gid (e # es) m =
     (case add_log L now gid e m of
        (r, m') \<Rightarrow> (case add_logs L now gid es m' of (rs, m'') \<Rightarrow> (r # rs, m'')))"








section \<open>Retention, as the specification words it\<close>






section \<open>Concrete guilds for the cleanup\<close>











section \<open>Reading after writing\<close>

lemma read_data_hit: "cache m key = Some v \<Longrightarrow> read_data L key m = (v, m)"
  by (simp add: read_data_def)

lemma write_data_True:
  "write_data key data m = (True, m') \<Longrightarrow> cache m' key = Some (JStr (payload data))"
  by (auto simp: write_data_def http_post_def Let_def
           split: prod.splits option.splits fault.splits sum.splits if_splits)

text \<open>
  After a successful write the read is answered by the cache alone: the state, and with
  it the backing store and its fault schedule, is untouched. What it answers is the
  text that was sent, as a string.
\<close>

lemma write_then_read:
  "write_data key data m = (True, m') \<Longrightarrow> read_data L key m' = (JStr (payload data), m')"
  by (simp add: write_data_True read_data_hit)

lemma payload_of_string: "payload (JStr s) = s"
  by (simp add: payload_def)

lemma text_is_not_the_value: "(\<forall>s. data \<noteq> JStr s) \<Longrightarrow> JStr (payload data) \<noteq> data"
  by (cases data) auto

text \<open>
  C1. A successful \<^verbatim>\<open>_write_data(k, v)\<close> followed by \<^verbatim>\<open>_read_data(k)\<close> should return a
  value equal to \<open>v\<close>, from the cache. On a new manager, writing the empty list under
  \<^verbatim>\<open>'guilds'\<close> succeeds, and the read that follows returns the string \<^verbatim>\<open>'[]'\<close>, not
  the list.
\<close>

theorem write_then_read_list:
  "fst (write_data ''guilds'' (JList []) (new_manager Map.empty [])) = True \<and>
   fst (read_data L ''guilds'' (snd (write_data ''guilds'' (JList []) (new_manager Map.empty []))))
     = JStr ''[]''"
  by (simp add: read_data_def write_data_def new_manager_def http_post_def next_fault_def
                Let_def payload_def)


section \<open>Transactions\<close>


lemma transaction_fresh_lock:
  "transaction gid ns m = (tx, m') \<Longrightarrow>
     lock tx = length (lock_heap m) \<and> lock_heap m' = lock_heap m @ [False] \<and> changes tx = []"
  by (auto simp: transaction_def alloc_lock_def)

text \<open>Two transactions of one scope never share their lock, whatever the manager's state.\<close>

lemma transactions_have_own_locks:
  "transaction gid ns m = (t1, m1) \<Longrightarrow> transaction gid ns m1 = (t2, m2) \<Longrightarrow> lock t1 \<noteq> lock t2"
  by (auto simp: transaction_def alloc_lock_def)

lemma second_transaction_enters:
  assumes "transaction gid ns m = (t1, m1)" and "transaction gid ns m1 = (t2, m2)"
    and "aenter t1 m2 = Some m3"
  shows "\<exists>m4. aenter t2 m3 = Some m4 \<and> held (lock t1) m4 \<and> held (lock t2) m4"
  using assms
  by (auto simp: transaction_def alloc_lock_def aenter_def acquire_def held_def nth_append
           split: if_splits)

text \<open>The registry of \<^verbatim>\<open>safe_operation\<close>, in contrast, hands out one lock per name.\<close>

lemma operation_lock_shared:
  "operation_lock name m = (l1, m1) \<Longrightarrow> operation_lock name m1 = (l2, m2) \<Longrightarrow> l1 = l2 \<and> m2 = m1"
  by (auto simp: operation_lock_def alloc_lock_def split: option.splits)

text \<open>
  C3. Two transactions created for the same scope \<open>(g, ns)\<close> should share one lock
  and so never be active together. For guild 1 and namespace \<^verbatim>\<open>'xp'\<close> on a new
  manager, the two transactions hold different locks and the second enters while the
  first is still inside: both locks are held at once.
\<close>

theorem same_scope_transactions_overlap:
  "(case transaction 1 ''xp'' (new_manager Map.empty []) of (t1, m1) \<Rightarrow>
    case transaction 1 ''xp'' m1 of (t2, m2) \<Rightarrow>
      lock t1 \<noteq> lock t2 \<and>
      (case aenter t1 m2 of
         None \<Rightarrow> False
       | Some m3 \<Rightarrow>
           (case aenter t2 m3 of
              None \<Rightarrow> False
            | Some m4 \<Rightarrow> held (lock t1) m4 \<and> held (lock t2) m4)))"
  by (simp add: transaction_def alloc_lock_def aenter_def acquire_def held_def new_manager_def)

lemma aexit_abort:
  "remote (aexit (Some e) tx m) = remote m \<and> cache (aexit (Some e) tx m) = cache m"
  by (simp add: aexit_def release_def)

lemma aexit_releases: "\<not> held (lock tx) (aexit exc tx m)"
  by (simp add: aexit_def release_def held_def)

lemma write_data_served:
  "faults (remote m) = [] \<Longrightarrow>
     write_data key data m =
       (True, m\<lparr>cache := (cache m)(key \<mapsto> JStr (payload data)),
                remote := (remote m)\<lparr>store := (store (remote m))(key \<mapsto> payload data),
                                     posts := posts (remote m) @ [(key, payload data)]\<rparr>\<rparr>)"
  by (simp add: write_data_def http_post_def next_fault_def Let_def)

lemma commit_served:
  "faults (remote m) = [] \<Longrightarrow>
     faults (remote (commit cs m)) = [] \<and>
     posts (remote (commit cs m)) = posts (remote m) @ map (\<lambda>kv. (fst kv, payload (snd kv))) cs"
proof (induction cs arbitrary: m)
  case Nil
  then show ?case by simp
next
  case (Cons c cs)
  obtain k v where c: "c = (k, v)" by (cases c)
  let ?m = "snd (write_data k v m)"
  from Cons.prems have w: "faults (remote ?m) = [] \<and> posts (remote ?m) = posts (remote m) @ [(k, payload v)]"
    by (simp add: write_data_served)
  with Cons.IH [of ?m] show ?case by (simp add: c)
qed

lemma lock_heap_commit: "lock_heap (commit cs m) = lock_heap m"
  by (induction cs arbitrary: m)
     (auto simp: write_data_def http_post_def Let_def split: prod.splits sum.splits)

text \<open>
  C2. A transaction that leaves its scope by an exception writes nothing; one that
  leaves it cleanly with N buffered changes performs N writes in insertion order, and
  each written value should then be visible to reads. The first two parts hold
  (\<open>aexit_abort\<close>, \<open>commit_served\<close>). For the third, a transaction that buffers the
  empty list under \<^verbatim>\<open>'k'\<close> and exits cleanly posts the text \<^verbatim>\<open>[]\<close>, and the read
  that follows returns that text as a string, not the list.
\<close>

theorem committed_list_reads_as_text:
  "(case transaction 1 ''xp'' (new_manager Map.empty []) of (tx, m1) \<Rightarrow>
    case aenter tx m1 of
      None \<Rightarrow> False
    | Some m2 \<Rightarrow>
        (let m3 = aexit None (tx\<lparr>changes := [(''k'', JList [])]\<rparr>) m2
         in posts (remote m3) = [(''k'', ''[]'')] \<and> fst (read_data L ''k'' m3) = JStr ''[]''))"
  by (simp add: transaction_def alloc_lock_def aenter_def acquire_def new_manager_def aexit_def
        release_def write_data_def http_post_def next_fault_def Let_def payload_def read_data_def)


section \<open>Absent documents, sections and users\<close>

lemma get_guild_data_absent:
  "read_data L (guild_key L gid) m = (JNull, m') \<Longrightarrow> get_guild_data L gid m = (JDict [], m')"
  by (simp add: get_guild_data_def py_or_def)


lemma str_int_1: "str_int 1 = ''1''"
  by (simp add: str_int_def str_nat.simps digit_char_def)


section \<open>Section updates\<close>

lemma dict_set_same: "map_of (dict_set k v kvs) k = Some v"
  by (induction kvs) auto

lemma dict_set_other: "k' \<noteq> k \<Longrightarrow> map_of (dict_set k v kvs) k' = map_of kvs k'"
  by (induction kvs) auto

text \<open>Reading while the store serves every request.\<close>

lemma read_data_served:
  assumes "faults (remote m) = []" and "read_data L key m = (v, m1)"
  shows "remote m1 = remote m"
    and "read_data L key m1 = (v, m1)"
    and "truthy v \<Longrightarrow> cache m1 key = Some v"
    and "lock_heap m1 = lock_heap m"
  using assms
  by (auto simp: read_data_def http_get_def next_fault_def Let_def
           split: option.splits if_splits)

lemma get_guild_data_served:
  assumes "faults (remote m) = []" and "get_guild_data L gid m = (doc, m1)"
  shows "remote m1 = remote m"
    and "get_guild_data L gid m1 = (doc, m1)"
    and "truthy doc \<Longrightarrow> cache m1 (guild_key L gid) = Some doc"
proof -
  obtain v where r: "read_data L (guild_key L gid) m = (v, m1)" and d: "doc = py_or v (JDict [])"
    using assms(2) by (auto simp: get_guild_data_def split: prod.splits)
  show "remote m1 = remote m" using read_data_served(1) [OF assms(1) r] .
  show "get_guild_data L gid m1 = (doc, m1)"
    using read_data_served(2) [OF assms(1) r] d by (simp add: get_guild_data_def)
  show "truthy doc \<Longrightarrow> cache m1 (guild_key L gid) = Some doc"
    using read_data_served(3) [OF assms(1) r] d by (auto simp: py_or_def split: if_splits)
qed

lemma remote_mutate_cached: "remote (mutate_cached key old new m) = remote m"
  by (simp add: mutate_cached_def)

lemma update_section_served:
  assumes "faults (remote m) = []" and "get_guild_data L gid m = (JDict sections, m1)"
  shows "\<exists>m2. update_section L gid section data m = (Inr True, m2) \<and>
           store (remote m2) = (store (remote m))(guild_key L gid \<mapsto>
              json_dumps (JDict (dict_set section data sections))) \<and>
           posts (remote m2) = posts (remote m) @
              [(guild_key L gid, json_dumps (JDict (dict_set section data sections)))] \<and>
           faults (remote m2) = []"
proof -
  have r: "remote m1 = remote m" using get_guild_data_served(1) [OF assms] .
  have f: "faults (remote (mutate_cached (guild_key L gid) (JDict sections)
             (JDict (dict_set section data sections)) m1)) = []"
    using r assms(1) by (simp add: remote_mutate_cached)
  show ?thesis
    using assms(2) write_data_served [OF f] r assms(1)
    by (simp add: update_section_def Let_def payload_def remote_mutate_cached)
qed

lemma example_read:
  "read_data example_lib ''guild:1'' example_manager =
     (example_doc, example_manager\<lparr>cache := [''guild:1'' \<mapsto> example_doc]\<rparr>)"
  by (simp add: read_data_def http_get_def next_fault_def example_manager_def new_manager_def
        example_lib_def table_lib_def)

lemma example_get:
  "get_guild_data example_lib (JInt 1) example_manager =
     (example_doc, example_manager\<lparr>cache := [''guild:1'' \<mapsto> example_doc]\<rparr>)"
  by (simp add: get_guild_data_def guild_key_def str_int_1 example_read)
     (simp add: py_or_def example_doc_def)


lemma update_user_xp_served:
  assumes "faults (remote m) = []" and "get_guild_data L gid m = (JDict sections, m1)"
    and "py_or (case map_of sections ''xp_users'' of None \<Rightarrow> JDict [] | Some v \<Rightarrow> v) (JDict [])
           = JDict users"
  shows "\<exists>m'. update_user_xp L gid user_id xp_data m = (Inr True, m')"
proof -
  have f1: "faults (remote m1) = []"
    using get_guild_data_served(1) [OF assms(1,2)] assms(1) by simp
  have g1: "get_guild_data L gid m1 = (JDict sections, m1)"
    using get_guild_data_served(2) [OF assms(1,2)] .
  from update_section_served [OF f1 g1, of "''xp_users''" "JDict (dict_set user_id xp_data users)"]
  obtain m2 where "update_section L gid ''xp_users'' (JDict (dict_set user_id xp_data users)) m1
                     = (Inr True, m2)"
    by blast
  then show ?thesis
    using assms(2,3) by (simp add: update_user_xp_def get_section_def)
qed

text \<open>
  C9. A successful \<^verbatim>\<open>update_user_xp(guild_id, user_id, xp_data)\<close>, with a store that
  serves every request, persists a document in which \<^verbatim>\<open>xp_users[user_id]\<close> is the new
  record, every other user's entry is what it was, and every other section is what it
  was.
\<close>

theorem update_user_xp_frame:
  assumes "update_user_xp L gid user_id xp_data m = (Inr True, m')"
    and "faults (remote m) = []"
  shows "\<exists>sections users sections' users'.
           fst (get_guild_data L gid m) = JDict sections \<and>
           py_or (case map_of sections ''xp_users'' of None \<Rightarrow> JDict [] | Some v \<Rightarrow> v) (JDict [])
             = JDict users \<and>
           store (remote m') (guild_key L gid) = Some (json_dumps (JDict sections')) \<and>
           map_of sections' ''xp_users'' = Some (JDict users') \<and>
           map_of users' user_id = Some xp_data \<and>
           (\<forall>u. u \<noteq> user_id \<longrightarrow> map_of users' u = map_of users u) \<and>
           (\<forall>s. s \<noteq> ''xp_users'' \<longrightarrow> map_of sections' s = map_of sections s)"
proof -
  obtain doc m1 where g: "get_guild_data L gid m = (doc, m1)" by (cases "get_guild_data L gid m")
  from assms(1) g obtain sec where s1: "py_get doc ''xp_users'' (JDict []) = Inr sec"
    by (auto simp: update_user_xp_def get_section_def split: sum.splits)
  then obtain sections where doc: "doc = JDict sections" by (cases doc) auto
  with s1 have sec: "sec = (case map_of sections ''xp_users'' of None \<Rightarrow> JDict [] | Some v \<Rightarrow> v)"
    by simp
  from assms(1) g s1 obtain data where
    s2: "py_setitem (py_or sec (JDict [])) user_id xp_data = Inr data"
    and u: "update_section L gid ''xp_users'' data m1 = (Inr True, m')"
    by (auto simp: update_user_xp_def get_section_def split: sum.splits)
  from s2 obtain users where us: "py_or sec (JDict []) = JDict users"
    and data: "data = JDict (dict_set user_id xp_data users)"
    by (cases "py_or sec (JDict [])") auto
  have f1: "faults (remote m1) = []"
    using get_guild_data_served(1) [OF assms(2) g] assms(2) by simp
  have g1: "get_guild_data L gid m1 = (JDict sections, m1)"
    using get_guild_data_served(2) [OF assms(2) g] doc by simp
  from update_section_served [OF f1 g1, of "''xp_users''" data] u
  have st: "store (remote m') (guild_key L gid) =
              Some (json_dumps (JDict (dict_set ''xp_users'' data sections)))"
    by auto
  show ?thesis
    apply (rule exI [of _ sections], rule exI [of _ users])
    apply (rule exI [of _ "dict_set ''xp_users'' data sections"])
    apply (rule exI [of _ "dict_set user_id xp_data users"])
    using g doc us sec st data
    by (simp add: dict_set_same dict_set_other)
qed

theorem update_user_xp_frame_witness:
  "\<exists>sections' users'.
     store (remote (snd (update_user_xp example_lib (JInt 1) ''42'' (JInt 9) example_manager)))
       ''guild:1'' = Some (json_dumps (JDict sections')) \<and>
     map_of sections' ''name'' = Some (JStr ''g'') \<and>
     map_of sections' ''xp_users'' = Some (JDict users') \<and>
     map_of users' ''7'' = Some (JInt 1) \<and>
     map_of users' ''42'' = Some (JInt 9)"
proof -
  let ?m' = "snd (update_user_xp example_lib (JInt 1) ''42'' (JInt 9) example_manager)"
  have h2: "faults (remote example_manager) = []"
    by (simp add: example_manager_def new_manager_def)
  have g: "get_guild_data example_lib (JInt 1) example_manager =
             (JDict [(''name'', JStr ''g''), (''xp_users'', JDict [(''7'', JInt 1)])],
              example_manager\<lparr>cache := [''guild:1'' \<mapsto> example_doc]\<rparr>)"
    using example_get by (simp add: example_doc_def)
  have "\<exists>m'. update_user_xp example_lib (JInt 1) ''42'' (JInt 9) example_manager = (Inr True, m')"
    by (rule update_user_xp_served [OF h2 g, of "[(''7'', JInt 1)]"]) (simp add: py_or_def)
  then obtain m0 where e0: "update_user_xp example_lib (JInt 1) ''42'' (JInt 9) example_manager = (Inr True, m0)"
    by (rule exE)
  have h1: "update_user_xp example_lib (JInt 1) ''42'' (JInt 9) example_manager = (Inr True, ?m')"
    by (simp only: e0 snd_conv)
  from update_user_xp_frame [OF h1 h2] obtain sections users sections' users' where
    a: "fst (get_guild_data example_lib (JInt 1) example_manager) = JDict sections"
    and b: "py_or (case map_of sections ''xp_users'' of None \<Rightarrow> JDict [] | Some v \<Rightarrow> v) (JDict [])
             = JDict users"
    and c: "store (remote ?m') (guild_key example_lib (JInt 1)) = Some (json_dumps (JDict sections'))"
    and d: "map_of sections' ''xp_users'' = Some (JDict users')"
    and e: "map_of users' ''42'' = Some (JInt 9)"
    and f: "\<forall>u. u \<noteq> ''42'' \<longrightarrow> map_of users' u = map_of users u"
    and h: "\<forall>s. s \<noteq> ''xp_users'' \<longrightarrow> map_of sections' s = map_of sections s"
    by (elim exE conjE)
  from a g have s: "sections = [(''name'', JStr ''g''), (''xp_users'', JDict [(''7'', JInt 1)])]"
    by simp
  with b have u: "users = [(''7'', JInt 1)]" by (simp add: py_or_def)
  from h have "map_of sections' ''name'' = map_of sections ''name''" by simp
  with s have n: "map_of sections' ''name'' = Some (JStr ''g'')" by simp
  from f have "map_of users' ''7'' = map_of users ''7''" by simp
  with u have o: "map_of users' ''7'' = Some (JInt 1)" by simp
  from c have c': "store (remote ?m') ''guild:1'' = Some (json_dumps (JDict sections'))"
    by (simp add: guild_key_def str_int_1)
  show ?thesis
    by (rule exI [of _ sections'], rule exI [of _ users']) (simp only: c' n d o e simp_thms)
qed

section \<open>Appending log entries\<close>

lemma length_last_1000: "length (last_1000 xs) \<le> 1000"
  by (simp add: last_1000_def)

lemma last_1000_of_1005: "length xs = 1005 \<Longrightarrow> last_1000 xs = drop 5 xs"
  by (simp add: last_1000_def)

lemma payload_dict_nonempty: "payload (JDict kvs) \<noteq> []"
  by (simp add: payload_def)

text \<open>
  Once the cache holds a document as text, every call that asks for one of its sections
  raises and changes nothing.
\<close>

lemma get_section_on_text:
  "cache m (guild_key L gid) = Some (JStr s) \<Longrightarrow> s \<noteq> [] \<Longrightarrow>
     get_section L gid section m = (Inl AttributeError, m)"
  by (simp add: get_section_def get_guild_data_def read_data_hit py_or_def)

lemma add_log_on_text:
  "cache m (guild_key L gid) = Some (JStr s) \<Longrightarrow> s \<noteq> [] \<Longrightarrow>
     add_log L now gid e m = (Inl AttributeError, m)"
  by (simp add: add_log_def get_section_on_text)

lemma add_logs_on_text:
  "cache m (guild_key L gid) = Some (JStr s) \<Longrightarrow> s \<noteq> [] \<Longrightarrow>
     add_logs L now gid es m = (replicate (length es) (Inl AttributeError), m)"
  by (induction es) (simp_all add: add_log_on_text)

lemma add_log_first:
  "add_log L now gid e (new_manager Map.empty []) =
     (Inr True,
      (new_manager Map.empty [])
        \<lparr>cache := [guild_key L gid \<mapsto> JStr (json_dumps (JDict [(''logs'',
             JList [JDict (dict_set ''timestamp'' (JStr (isoformat L now)) e)])]))],
         remote := \<lparr>store = [guild_key L gid \<mapsto> json_dumps (JDict [(''logs'',
             JList [JDict (dict_set ''timestamp'' (JStr (isoformat L now)) e)])])],
           faults = [],
           posts = [(guild_key L gid, json_dumps (JDict [(''logs'',
             JList [JDict (dict_set ''timestamp'' (JStr (isoformat L now)) e)])]))]\<rparr>\<rparr>)"
  by (simp add: add_log_def get_section_def get_guild_data_def read_data_def http_get_def
        next_fault_def new_manager_def py_or_def update_section_def mutate_cached_def
        write_data_def http_post_def payload_def Let_def)

lemma write_data_True_store:
  "write_data key data m = (True, m') \<Longrightarrow> store (remote m') key = Some (payload data)"
  by (auto simp: write_data_def http_post_def Let_def
           split: prod.splits option.splits fault.splits sum.splits if_splits)

lemma update_section_True:
  assumes "update_section L gid section data m = (Inr True, m')"
  shows "\<exists>sections. store (remote m') (guild_key L gid) =
           Some (json_dumps (JDict (dict_set section data sections)))"
proof -
  obtain doc m1 where g: "get_guild_data L gid m = (doc, m1)" by (cases "get_guild_data L gid m")
  from assms g obtain doc' where s: "py_setitem doc section data = Inr doc'"
    and w: "write_data (guild_key L gid) doc' (mutate_cached (guild_key L gid) doc doc' m1) = (True, m')"
    by (auto simp: update_section_def Let_def split: sum.splits prod.splits)
  from s obtain sections where "doc' = JDict (dict_set section data sections)"
    by (cases doc) auto
  with write_data_True_store [OF w] show ?thesis by (auto simp: payload_def)
qed

text \<open>Whatever the section held before, a call that succeeds leaves at most 1000 entries.\<close>

lemma add_log_bounded:
  assumes "add_log L now gid e m = (Inr True, m')"
  shows "\<exists>sections logs. store (remote m') (guild_key L gid) = Some (json_dumps (JDict sections)) \<and>
           map_of sections ''logs'' = Some (JList logs) \<and> length logs \<le> 1000"
proof -
  obtain r m1 where g: "get_section L gid ''logs'' m = (r, m1)" by (cases "get_section L gid ''logs'' m")
  from assms g obtain data where
    u: "update_section L gid ''logs'' (JList (if length data > 1000 then last_1000 data else data)) m1
          = (Inr True, m')"
    by (auto simp: add_log_def split: sum.splits json.splits)
  let ?logs = "if length data > 1000 then last_1000 data else data"
  from update_section_True [OF u] obtain sections where
    st: "store (remote m') (guild_key L gid) = Some (json_dumps (JDict (dict_set ''logs'' (JList ?logs) sections)))"
    by blast
  have len: "length ?logs \<le> 1000" by (simp add: length_last_1000)
  show ?thesis
    apply (rule exI [of _ "dict_set ''logs'' (JList ?logs) sections"])
    apply (rule exI [of _ ?logs])
    using st len by (simp add: dict_set_same del: json_dumps.simps)
qed

text \<open>
  C5. \<^verbatim>\<open>add_log\<close> never leaves more than 1000 entries, and 1005 sequential calls from
  an empty section should leave the last 1000 entries in append order. The bound holds
  for every call that succeeds (\<open>add_log_bounded\<close>). The sequence does not get that far:
  on a new manager in front of an empty store the first call succeeds and stores one
  entry, and every later call raises \<^verbatim>\<open>AttributeError\<close> without writing, so the
  store has received one write, with the first entry only.
\<close>

theorem second_add_log_raises:
  "fst (add_logs L now gid (e # es) (new_manager Map.empty [])) =
     Inr True # replicate (length es) (Inl AttributeError) \<and>
   posts (remote (snd (add_logs L now gid (e # es) (new_manager Map.empty [])))) =
     [(guild_key L gid, json_dumps (JDict [(''logs'',
        JList [JDict (dict_set ''timestamp'' (JStr (isoformat L now)) e)])]))]"
proof -
  let ?doc = "JDict [(''logs'', JList [JDict (dict_set ''timestamp'' (JStr (isoformat L now)) e)])]"
  obtain m1 where a: "add_log L now gid e (new_manager Map.empty []) = (Inr True, m1)"
    and c: "cache m1 (guild_key L gid) = Some (JStr (payload ?doc))"
    and p: "posts (remote m1) = [(guild_key L gid, json_dumps ?doc)]"
    by (simp add: add_log_first payload_def del: json_dumps.simps)
  have r: "add_logs L now gid es m1 = (replicate (length es) (Inl AttributeError), m1)"
    by (rule add_logs_on_text [OF c payload_dict_nonempty])
  show ?thesis by (simp add: a r p del: json_dumps.simps)
qed

section \<open>Synchronising the guild index\<close>

subsection \<open>Decimal numerals are injective\<close>
























section \<open>Ensuring a guild\<close>

text \<open>
  When the index is read as a list that has the guild and the guild has data, the call
  writes nothing.
\<close>

lemma ensure_guild_exists_present:
  assumes "read_data L ''guilds'' m = (JList xs, m1)" and "JStr (str_int gid) \<in> set xs"
    and "get_guild_data L (JInt gid) m1 = (doc, m2)" and "truthy doc"
  shows "ensure_guild_exists L now gid name m = (True, m2)"
proof -
  from assms(2) have "xs \<noteq> []" by auto
  then show ?thesis using assms by (simp add: ensure_guild_exists_def py_or_def)
qed

lemma ensure_twice_on_new_manager:
  "(case ensure_guild_exists (table_lib [] []) 0 1 ''a'' (new_manager Map.empty []) of (r1, m1) \<Rightarrow>
    case ensure_guild_exists (table_lib [] []) 0 1 ''a'' m1 of (r2, m2) \<Rightarrow>
      r1 \<and> r2 \<and> map fst (posts (remote m2)) = [''guild:1'', ''guilds''] \<and>
      store (remote m2) ''guilds'' = Some ''[\"1\"]'')"
  by code_simp

text \<open>
  C7. Two \<^verbatim>\<open>ensure_guild_exists\<close> calls for one guild should leave the guild exactly
  once in the GuildIndex and not overwrite its document. On a manager that has just
  ensured guild 1 this fails for guild 2: the index is now cached as the text
  \<^verbatim>\<open>["1"]\<close>, both calls for guild 2 write its document, find \<^verbatim>\<open>'2'\<close> not to be a
  substring of that text, fail on \<^verbatim>\<open>append\<close> and return \<^verbatim>\<open>False\<close>. After the second
  call the index, in the store and in the cache, still lacks guild 2.
\<close>

theorem ensure_second_guild_not_indexed:
  "(case ensure_guild_exists (table_lib [] []) 0 1 ''a'' (new_manager Map.empty []) of (r1, m1) \<Rightarrow>
    case ensure_guild_exists (table_lib [] []) 0 2 ''b'' m1 of (r2, m2) \<Rightarrow>
    case ensure_guild_exists (table_lib [] []) 0 2 ''b'' m2 of (r3, m3) \<Rightarrow>
      r1 \<and> \<not> r2 \<and> \<not> r3 \<and>
      store (remote m3) ''guilds'' = Some ''[\"1\"]'' \<and>
      cache m3 ''guilds'' = Some (JStr ''[\"1\"]'') \<and>
      store (remote m3) ''guild:2'' \<noteq> None)"
  by code_simp

section \<open>The guild index after sync and ensure\<close>







section \<open>What the cleanup keeps\<close>









lemma write_data_touches:
  assumes "faults (remote m) = []" and "write_data key data m = (ok, m1)"
  shows "faults (remote m1) = []"
    and "k \<noteq> key \<Longrightarrow> cache m1 k = cache m k \<and> store (remote m1) k = store (remote m) k"
  using assms by (auto simp: write_data_served)







end
